theory Spec2Isabelle
  imports Complex_Main "HOL-Library.Sublist"
begin

section \<open>Live State Store (LiveStreamService, liveStreamService.ts)\<close>

text \<open>
  The stream service handles its payloads as untyped objects (\<^verbatim>\<open>any\<close>), and a patch
  record carries only the fields the provider sent. A record is therefore a finite map
  from field names to values; a field that is absent reads as \<^verbatim>\<open>undefined\<close>, here
  \<open>None\<close>. The object spread \<^verbatim>\<open>{ ...a, ...b }\<close> is map override \<open>a ++ b\<close>.
  The identity of a record is its \<^verbatim>\<open>id\<close> field (a number in \<^verbatim>\<open>LiveHeader\<close> and
  \<^verbatim>\<open>LiveBet\<close>); on JSON numbers, strings, booleans, null and undefined \<^verbatim>\<open>===\<close>
  is equality.
\<close>

type_synonym 'v live_record = "string \<rightharpoonup> 'v"

definition rid :: "'v live_record \<Rightarrow> 'v option" where
  "rid r = r ''id''"

datatype sport = Football | Tennis | Basketball

text \<open>
  A JavaScript \<^verbatim>\<open>number\<close> that holds a timestamp. It is a double: an integer of
  magnitude at most \<open>2^53\<close> is held exactly (\<open>Num\<close>); a larger one is rounded to a
  nearby double or to \<^verbatim>\<open>Infinity\<close>, and \<open>Inexact\<close> stands for that rounded value, which
  is not computed here. All that is known of it is that it is neither zero nor \<^verbatim>\<open>NaN\<close>.
\<close>

datatype number = NaN | Num int | Inexact

definition toNumber :: "int \<Rightarrow> number" where
  "toNumber i = (if \<bar>i\<bar> \<le> 2 ^ 53 then Num i else Inexact)"

record ('s, 'v) LiveData =
  sports :: "'s list"
  headers :: "'v live_record list"
  bets :: "'v live_record list"
  lastTimestamp :: number
  initializedAt :: nat
  sport :: sport

text \<open>\<^verbatim>\<open>Array.prototype.findIndex\<close>: the first index whose element satisfies the
  predicate; the source's \<^verbatim>\<open>-1\<close> is \<open>None\<close>.\<close>

fun findIndex :: "('a \<Rightarrow> bool) \<Rightarrow> 'a list \<Rightarrow> nat option" where
  "findIndex P [] = None"
| "findIndex P (x # xs) = (if P x then Some 0 else map_option Suc (findIndex P xs))"

text \<open>The body of the \<^verbatim>\<open>for\<close> loop of \<^verbatim>\<open>updateLiveHeaders\<close> and of
  \<^verbatim>\<open>updateLiveBets\<close> (the two are the same code on the two collections).\<close>

definition mergeRecord :: "'v live_record list \<Rightarrow> 'v live_record \<Rightarrow> 'v live_record list" where
  "mergeRecord rs n =
     (case findIndex (\<lambda>h. rid h = rid n) rs of
        Some existingIndex \<Rightarrow> rs[existingIndex := (rs ! existingIndex) ++ n]
      | None \<Rightarrow> rs @ [n])"

definition mergeRecords :: "'v live_record list \<Rightarrow> 'v live_record list \<Rightarrow> 'v live_record list" where
  "mergeRecords rs ns = foldl mergeRecord rs ns"

text \<open>The service keeps \<^verbatim>\<open>liveData: LiveData | null\<close>; both update methods return at
  once when it is null.\<close>

definition updateLiveHeaders ::
  "('s, 'v) LiveData option \<Rightarrow> 'v live_record list \<Rightarrow> ('s, 'v) LiveData option" where
  "updateLiveHeaders ld newHeaders =
     (case ld of None \<Rightarrow> None
      | Some d \<Rightarrow> Some (d\<lparr>headers := mergeRecords (headers d) newHeaders\<rparr>))"

definition updateLiveBets ::
  "('s, 'v) LiveData option \<Rightarrow> 'v live_record list \<Rightarrow> ('s, 'v) LiveData option" where
  "updateLiveBets ld newBets =
     (case ld of None \<Rightarrow> None
      | Some d \<Rightarrow> Some (d\<lparr>bets := mergeRecords (bets d) newBets\<rparr>))"

text \<open>A decoded frame: each of the three arrays may be missing. An array is truthy even
  when empty, so \<^verbatim>\<open>if (data.liveHeaders)\<close> tests presence only.\<close>

record ('s, 'v) streamData =
  liveSports :: "'s list option"
  liveHeaders :: "'v live_record list option"
  liveBets :: "'v live_record list option"

text \<open>\<^verbatim>\<open>processLiveUpdateData\<close>, without the event emission and the logging.\<close>

definition processLiveUpdateData ::
  "('s, 'v) LiveData option \<Rightarrow> ('s, 'v) streamData \<Rightarrow> ('s, 'v) LiveData option" where
  "processLiveUpdateData ld data =
     (case ld of None \<Rightarrow> None
      | Some d \<Rightarrow>
          (let ld1 = (case liveHeaders data of Some hs \<Rightarrow> updateLiveHeaders (Some d) hs
                      | None \<Rightarrow> Some d)
           in case liveBets data of Some bs \<Rightarrow> updateLiveBets ld1 bs | None \<Rightarrow> ld1))"

text \<open>\<^verbatim>\<open>processLiveStreamData\<close> of the bulk fetch: the three accumulators are the
  local arrays of \<^verbatim>\<open>initializeLiveEvents\<close>; \<^verbatim>\<open>push(...xs)\<close> appends.\<close>

record ('s, 'v) accum =
  accSports :: "'s list"
  accHeaders :: "'v live_record list"
  accBets :: "'v live_record list"

definition processLiveStreamData :: "('s, 'v) streamData \<Rightarrow> ('s, 'v) accum \<Rightarrow> ('s, 'v) accum" where
  "processLiveStreamData data a =
     (let a1 = (case liveSports data of Some xs \<Rightarrow> a\<lparr>accSports := accSports a @ xs\<rparr> | None \<Rightarrow> a);
          a2 = (case liveHeaders data of Some xs \<Rightarrow> a1\<lparr>accHeaders := accHeaders a1 @ xs\<rparr> | None \<Rightarrow> a1)
      in (case liveBets data of Some xs \<Rightarrow> a2\<lparr>accBets := accBets a2 @ xs\<rparr> | None \<Rightarrow> a2))"

subsection \<open>Views of a collection used to state its properties\<close>

text \<open>The record a reader finds under an id: the first one in the array, as
  \<^verbatim>\<open>find\<close> and \<^verbatim>\<open>findIndex\<close> do.\<close>

definition lookupRecord :: "'v live_record list \<Rightarrow> 'v option \<Rightarrow> 'v live_record option" where
  "lookupRecord rs k = find (\<lambda>h. rid h = k) rs"

text \<open>All records of a patch that carry the id \<open>k\<close>, spread over each other in patch
  order.\<close>

definition patchFor :: "'v live_record list \<Rightarrow> 'v option \<Rightarrow> 'v live_record" where
  "patchFor ns k = foldl (++) Map.empty (filter (\<lambda>n. rid n = k) ns)"

text \<open>Spreads \<open>A k\<close> over the first record of each id \<open>k\<close> outside \<open>seen\<close>, and
  leaves every other record alone.\<close>

fun overlayFirst ::
  "'v option set \<Rightarrow> ('v option \<Rightarrow> 'v live_record) \<Rightarrow> 'v live_record list \<Rightarrow> 'v live_record list" where
  "overlayFirst seen A [] = []"
| "overlayFirst seen A (h # rs) =
     (if rid h \<in> seen then h else h ++ A (rid h)) # overlayFirst (insert (rid h) seen) A rs"

text \<open>The sequence of ids of a collection while a patch is applied: an id that is already
  there keeps its place, a new one goes to the end.\<close>

definition addId :: "'k list \<Rightarrow> 'k \<Rightarrow> 'k list" where
  "addId ks k = (if k \<in> set ks then ks else ks @ [k])"

section \<open>Stream Ingestion Engine (LiveStreamService.initializeLiveEvents)\<close>

subsection \<open>The string operations the frame parser uses\<close>

text \<open>
  Strings are byte lists. \<^verbatim>\<open>trim\<close> and \<^verbatim>\<open>parseInt\<close> strip JavaScript white space;
  the model strips the ASCII white space characters (tab, line feed, vertical tab, form
  feed, carriage return, space) and leaves the multi-byte Unicode spaces alone.
\<close>

abbreviation LF :: char where
  "LF \<equiv> CHR 0x0A"

definition isSpace :: "char \<Rightarrow> bool" where
  "isSpace c = (c \<in> {CHR 0x09, CHR 0x0A, CHR 0x0B, CHR 0x0C, CHR 0x0D, CHR '' ''})"

definition trim :: "string \<Rightarrow> string" where
  "trim s = rev (dropWhile isSpace (rev (dropWhile isSpace s)))"

text \<open>\<^verbatim>\<open>s.startsWith(p)\<close> is \<open>prefix p s\<close>; \<^verbatim>\<open>s.substring(5)\<close> is \<open>drop 5 s\<close>.
  \<^verbatim>\<open>s.replace(pat, rep)\<close> with a string pattern replaces the first occurrence.\<close>

fun replaceFirst :: "string \<Rightarrow> string \<Rightarrow> string \<Rightarrow> string" where
  "replaceFirst pat rep [] = (if pat = [] then rep else [])"
| "replaceFirst pat rep (c # cs) =
     (if prefix pat (c # cs) then rep @ drop (length pat) (c # cs)
      else c # replaceFirst pat rep cs)"

text \<open>\<^verbatim>\<open>s.split(sep)\<close> for a non-empty separator: the pieces between the occurrences of
  the separator, found from left to right; the result is never empty. \<open>cur\<close> holds the
  piece being read, reversed.\<close>

function splitFrom :: "string \<Rightarrow> string \<Rightarrow> string \<Rightarrow> string list" where
  "splitFrom sep cur [] = [rev cur]"
| "splitFrom sep cur (c # cs) =
     (if sep \<noteq> [] \<and> prefix sep (c # cs)
      then rev cur # splitFrom sep [] (drop (length sep) (c # cs))
      else splitFrom sep (c # cur) cs)"
  by pat_completeness auto
termination
  by (relation "measure (\<lambda>(sep, cur, s). length s)") (auto simp: neq_Nil_conv)

definition split :: "string \<Rightarrow> string \<Rightarrow> string list" where
  "split sep s = splitFrom sep [] s"

definition isDigit :: "char \<Rightarrow> bool" where
  "isDigit c = (c \<in> set ''0123456789'')"

definition isHexDigit :: "char \<Rightarrow> bool" where
  "isHexDigit c = (c \<in> set ''0123456789abcdefABCDEF'')"

definition digitValue :: "char \<Rightarrow> nat" where
  "digitValue c =
     (if c \<in> set ''0123456789'' then of_char c - 48
      else if c \<in> set ''abcdef'' then of_char c - 87
      else of_char c - 55)"

definition radixValue :: "nat \<Rightarrow> string \<Rightarrow> nat" where
  "radixValue r ds = foldl (\<lambda>a c. r * a + digitValue c) 0 ds"

text \<open>
  \<^verbatim>\<open>parseInt(s)\<close> without a radix: leading white space, an optional sign, an optional
  \<^verbatim>\<open>0x\<close> that selects base 16, then the longest run of digits; \<^verbatim>\<open>NaN\<close> when
  there is no digit. The result is the double for the signed value of the digits: the
  value itself up to \<open>2^53\<close>, a rounded double above it.
\<close>

definition parseInt :: "string \<Rightarrow> number" where
  "parseInt s =
     (let s1 = dropWhile isSpace s;
          neg = prefix ''-'' s1;
          s2 = (if prefix ''-'' s1 \<or> prefix ''+'' s1 then drop 1 s1 else s1);
          hex = (prefix ''0x'' s2 \<or> prefix ''0X'' s2);
          s3 = (if hex then drop 2 s2 else s2);
          ds = takeWhile (if hex then isHexDigit else isDigit) s3
      in if ds = [] then NaN
         else toNumber ((if neg then - 1 else 1) * int (radixValue (if hex then 16 else 10) ds)))"

subsection \<open>The data handler and the end handler\<close>

text \<open>\<^verbatim>\<open>endTimestamp: number | null\<close>, with \<open>None\<close> for \<^verbatim>\<open>null\<close>. Only a number other
  than zero and \<^verbatim>\<open>NaN\<close> is truthy.\<close>

type_synonym timestamp = "number option"

fun truthy :: "timestamp \<Rightarrow> bool" where
  "truthy (Some (Num n)) = (n \<noteq> 0)"
| "truthy (Some Inexact) = True"
| "truthy (Some NaN) = False"
| "truthy None = False"

record ('s, 'v) ingest =
  dataBuffer :: string
  acc :: "('s, 'v) accum"
  endTimestamp :: timestamp

definition ingest0 :: "('s, 'v) ingest" where
  "ingest0 = \<lparr>dataBuffer = [], acc = \<lparr>accSports = [], accHeaders = [], accBets = []\<rparr>,
              endTimestamp = None\<rparr>"

text \<open>
  The body of the \<^verbatim>\<open>for (const line of lines)\<close> loop. \<open>decode\<close> stands for
  \<^verbatim>\<open>JSON.parse\<close> of the runtime followed by the reads of \<^verbatim>\<open>processLiveStreamData\<close>:
  \<open>None\<close> when they throw, which the \<^verbatim>\<open>catch\<close> turns into skipping the line.
\<close>

definition processLine ::
  "(string \<Rightarrow> ('s, 'v) streamData option) \<Rightarrow> ('s, 'v) ingest \<Rightarrow> string \<Rightarrow> ('s, 'v) ingest" where
  "processLine decode st line =
     (if trim line = [] then st
      else let jsonData = (if prefix ''data:'' line then drop 5 line else line)
           in if trim jsonData = [] then st
              else if prefix ''END '' jsonData
              then st\<lparr>endTimestamp := Some (parseInt (trim (replaceFirst ''END '' [] jsonData)))\<rparr>
              else (case decode jsonData of
                      None \<Rightarrow> st
                    | Some data \<Rightarrow> st\<lparr>acc := processLiveStreamData data (acc st)\<rparr>))"

text \<open>The \<^verbatim>\<open>'data'\<close> handler: the chunk is appended to the buffer, the buffer is split at
  blank lines, the last piece stays in the buffer and the others are processed.\<close>

definition onData ::
  "(string \<Rightarrow> ('s, 'v) streamData option) \<Rightarrow> ('s, 'v) ingest \<Rightarrow> string \<Rightarrow> ('s, 'v) ingest" where
  "onData decode st chunk =
     (let lines = split [LF, LF] (dataBuffer st @ chunk)
      in foldl (processLine decode) (st\<lparr>dataBuffer := last lines\<rparr>) (butlast lines))"

datatype ingest_error =
    NoEndTimestamp \<comment> \<open>\<^verbatim>\<open>No END timestamp received from live events stream\<close>\<close>
  | StreamFailure string \<comment> \<open>the error of the \<^verbatim>\<open>'error'\<close> event\<close>
  | ConnectFailure string \<comment> \<open>\<^verbatim>\<open>Failed to initialize live events: ...\<close>\<close>
  | AbortError

datatype 'a promise = Resolved 'a | Rejected ingest_error | Pending

datatype stream_end = StreamEnd | StreamError string

text \<open>The \<^verbatim>\<open>'end'\<close> handler. Its test \<^verbatim>\<open>if (endTimestamp)\<close> lets a number through
  that is neither zero nor \<^verbatim>\<open>NaN\<close>; \<open>now\<close> is \<^verbatim>\<open>new Date()\<close>.\<close>

definition onEnd :: "sport \<Rightarrow> nat \<Rightarrow> ('s, 'v) ingest \<Rightarrow> ('s, 'v) LiveData promise" where
  "onEnd sp now st =
     (case endTimestamp st of
        Some n \<Rightarrow>
          (if truthy (Some n)
           then Resolved \<lparr>sports = accSports (acc st), headers = accHeaders (acc st),
                  bets = accBets (acc st), lastTimestamp = n, initializedAt = now, sport = sp\<rparr>
           else Rejected NoEndTimestamp)
      | None \<Rightarrow> Rejected NoEndTimestamp)"

text \<open>The promise that \<^verbatim>\<open>initializeLiveEvents\<close> returns once the connection is open,
  for a stream that delivers the chunks and then ends or fails. An \<^verbatim>\<open>AbortError\<close> on the
  stream settles nothing.\<close>

definition streamPromise ::
  "(string \<Rightarrow> ('s, 'v) streamData option) \<Rightarrow> sport \<Rightarrow> nat \<Rightarrow> string list \<Rightarrow> stream_end \<Rightarrow>
   ('s, 'v) LiveData promise" where
  "streamPromise decode sp now chunks fin =
     (case fin of
        StreamEnd \<Rightarrow> onEnd sp now (foldl (onData decode) ingest0 chunks)
      | StreamError name \<Rightarrow> (if name = ''AbortError'' then Pending else Rejected (StreamFailure name)))"

text \<open>What \<^verbatim>\<open>axios.get\<close> does: it throws (an abort, or another error with its message)
  or it opens the stream.\<close>

datatype connection = Refused string | Cancelled | Opened "string list" stream_end

definition initializeLiveEvents ::
  "(string \<Rightarrow> ('s, 'v) streamData option) \<Rightarrow> sport \<Rightarrow> nat \<Rightarrow> connection \<Rightarrow>
   ('s, 'v) LiveData promise" where
  "initializeLiveEvents decode sp now conn =
     (case conn of
        Refused msg \<Rightarrow> Rejected (ConnectFailure msg)
      | Cancelled \<Rightarrow> Rejected AbortError
      | Opened chunks fin \<Rightarrow> streamPromise decode sp now chunks fin)"

subsection \<open>The frames of a stream\<close>


text \<open>A line that reaches the assignment of \<^verbatim>\<open>endTimestamp\<close>.\<close>

definition isEndLine :: "string \<Rightarrow> bool" where
  "isEndLine line =
     (trim line \<noteq> [] \<and>
      (let jsonData = (if prefix ''data:'' line then drop 5 line else line)
       in trim jsonData \<noteq> [] \<and> prefix ''END '' jsonData))"

section \<open>Subscription Loop (LiveStreamService, the update stream)\<close>

text \<open>The fields of the service. \<open>abortController\<close> records whether the service holds a
  controller (the source's field is \<^verbatim>\<open>AbortController | null\<close>).\<close>

record ('s, 'v) streamService =
  isStreaming :: bool
  shouldStream :: bool
  currentTimestamp :: timestamp
  liveData :: "('s, 'v) LiveData option"
  abortController :: bool

definition newStreamService :: "('s, 'v) streamService" where
  "newStreamService = \<lparr>isStreaming = False, shouldStream = False, currentTimestamp = None,
     liveData = None, abortController = False\<rparr>"

text \<open>
  The loop runs on callbacks: stream events and timers. The world around the service
  holds the callbacks that \<^verbatim>\<open>setTimeout\<close> has scheduled and that have not fired, and
  counts the connection attempts, that is the calls of \<^verbatim>\<open>axios.get\<close> on the subscribe
  address. A timer knows which handler scheduled it: the end handler (1000 ms) or the
  error handler (5000 ms).
\<close>

datatype timer = EndTimer | ErrorTimer

fun delay :: "timer \<Rightarrow> nat" where
  "delay EndTimer = 1000"
| "delay ErrorTimer = 5000"

record ('s, 'v) world =
  service :: "('s, 'v) streamService"
  timers :: "timer list"
  connects :: nat

text \<open>What \<^verbatim>\<open>axios.get\<close> on the subscribe address does.\<close>

datatype connect_outcome = ConnOpened | ConnAborted | ConnFailed string

datatype sub_error =
    NoTimestamp \<comment> \<open>\<^verbatim>\<open>No timestamp available. Initialize live events first.\<close>\<close>
  | SubscribeFailed string

text \<open>\<^verbatim>\<open>subscribeToLiveUpdates\<close>: nothing without a timestamp; otherwise one connection
  attempt. An abort and a failure both clear \<^verbatim>\<open>isStreaming\<close>; the failure is rethrown.\<close>

definition subscribeToLiveUpdates ::
  "connect_outcome \<Rightarrow> ('s, 'v) world \<Rightarrow> sub_error option \<times> ('s, 'v) world" where
  "subscribeToLiveUpdates outcome w =
     (if \<not> truthy (currentTimestamp (service w)) then (None, w)
      else let w1 = w\<lparr>service := (service w)\<lparr>abortController := True\<rparr>, connects := connects w + 1\<rparr>
           in case outcome of
                ConnOpened \<Rightarrow> (None, w1)
              | ConnAborted \<Rightarrow> (None, w1\<lparr>service := (service w1)\<lparr>isStreaming := False\<rparr>\<rparr>)
              | ConnFailed msg \<Rightarrow>
                  (Some (SubscribeFailed msg), w1\<lparr>service := (service w1)\<lparr>isStreaming := False\<rparr>\<rparr>))"

definition startLiveSubscription ::
  "connect_outcome \<Rightarrow> ('s, 'v) world \<Rightarrow> sub_error option \<times> ('s, 'v) world" where
  "startLiveSubscription outcome w =
     (if \<not> truthy (currentTimestamp (service w)) then (Some NoTimestamp, w)
      else if isStreaming (service w) then (None, w)
      else subscribeToLiveUpdates outcome
             (w\<lparr>service := (service w)\<lparr>isStreaming := True, shouldStream := True\<rparr>\<rparr>))"

definition stopLiveSubscription :: "('s, 'v) streamService \<Rightarrow> ('s, 'v) streamService" where
  "stopLiveSubscription sv = sv\<lparr>isStreaming := False, shouldStream := False, abortController := False\<rparr>"

text \<open>The handlers of the update stream. The end handler clears \<^verbatim>\<open>isStreaming\<close> and
  schedules the short timer; the error handler ignores an abort and otherwise clears
  \<^verbatim>\<open>isStreaming\<close> and schedules the long timer.\<close>

definition onSubscriptionEnd :: "('s, 'v) world \<Rightarrow> ('s, 'v) world" where
  "onSubscriptionEnd w =
     w\<lparr>service := (service w)\<lparr>isStreaming := False\<rparr>, timers := timers w @ [EndTimer]\<rparr>"

definition onSubscriptionError :: "string \<Rightarrow> ('s, 'v) world \<Rightarrow> ('s, 'v) world" where
  "onSubscriptionError name w =
     (if name = ''AbortError'' then w
      else w\<lparr>service := (service w)\<lparr>isStreaming := False\<rparr>, timers := timers w @ [ErrorTimer]\<rparr>)"

text \<open>The two timer callbacks. Both test \<^verbatim>\<open>shouldStream\<close>; the one of the end handler
  sets \<^verbatim>\<open>isStreaming\<close> again before it subscribes. A failure of the subscription in a
  callback has no caller to reach.\<close>

fun timerCallback :: "timer \<Rightarrow> connect_outcome \<Rightarrow> ('s, 'v) world \<Rightarrow> ('s, 'v) world" where
  "timerCallback EndTimer outcome w =
     (if shouldStream (service w)
      then snd (subscribeToLiveUpdates outcome (w\<lparr>service := (service w)\<lparr>isStreaming := True\<rparr>\<rparr>))
      else w)"
| "timerCallback ErrorTimer outcome w =
     (if shouldStream (service w) then snd (subscribeToLiveUpdates outcome w) else w)"

text \<open>The events that drive the loop. \<open>Fire i\<close> is the pending timer at index \<open>i\<close>
  running out; firing removes it from the pending ones.\<close>

datatype ('s, 'v) event =
    Start connect_outcome
  | Stop
  | Frame "('s, 'v) streamData"
  | End
  | Error string
  | Fire nat connect_outcome

fun step :: "('s, 'v) event \<Rightarrow> ('s, 'v) world \<Rightarrow> ('s, 'v) world" where
  "step (Start outcome) w = snd (startLiveSubscription outcome w)"
| "step Stop w = w\<lparr>service := stopLiveSubscription (service w)\<rparr>"
| "step (Frame data) w =
     w\<lparr>service := (service w)\<lparr>liveData := processLiveUpdateData (liveData (service w)) data\<rparr>\<rparr>"
| "step End w = onSubscriptionEnd w"
| "step (Error name) w = onSubscriptionError name w"
| "step (Fire i outcome) w =
     (if i < length (timers w)
      then timerCallback (timers w ! i) outcome (w\<lparr>timers := take i (timers w) @ drop (Suc i) (timers w)\<rparr>)
      else w)"

definition run :: "('s, 'v) event list \<Rightarrow> ('s, 'v) world \<Rightarrow> ('s, 'v) world" where
  "run evs w = foldl (\<lambda>w e. step e w) w evs"

fun isStart :: "('s, 'v) event \<Rightarrow> bool" where
  "isStart (Start outcome) = True"
| "isStart _ = False"

section \<open>Reference catalog and Sport Mapping Table\<close>

text \<open>
  The catalog records carry many fields that the services only copy. The records below
  hold the fields that the modelled functions read or compute; where two interfaces of
  the source share a field name, the field gets a short prefix of its record here. A
  \<^verbatim>\<open>Record<string, T>\<close> is the list of its entries in the order \<^verbatim>\<open>Object.entries\<close>
  gives them; \<^verbatim>\<open>r[k]\<close> is \<open>map_of r k\<close>.
\<close>

record SportData =
  sd_name :: string
  sd_sportTypeCode :: string

record SportMapping =
  m_name :: string
  m_sportTypeCode :: string
  m_englishName :: sport

record BetPickGroup =
  g_id :: int
  g_description :: string
  g_name :: string
  g_orderNumber :: int
  g_tipTypes :: "int list"
  g_sport :: string

record BetPickMapItem =
  i_label :: string
  i_caption :: string
  i_tipTypeCode :: int
  i_betPickCode :: int
  i_betCode :: int

record BettingOptionsResponse =
  betPickGroupMap :: "(string \<times> BetPickGroup) list"
  betPickMap :: "(string \<times> BetPickMapItem) list"

record EnhancedBetPick =
  p_key :: string
  p_label :: string
  p_caption :: string
  p_tipTypeCode :: int
  p_betPickCode :: int
  p_betCode :: int
  p_groupId :: "int option"
  p_groupDescription :: "string option"
  p_groupName :: "string option"
  p_groupOrderNumber :: "int option"

record EnhancedBetGroup =
  eg_group :: BetPickGroup
  eg_picks :: "EnhancedBetPick list"

record EnhancedBettingOptions =
  groups :: "EnhancedBetGroup list"
  picks :: "EnhancedBetPick list"


definition strOrNull :: "string option \<Rightarrow> string option" where
  "strOrNull x = (case x of None \<Rightarrow> None | Some s \<Rightarrow> if s = [] then None else Some s)"







definition getSportTypeCode :: "(sport \<rightharpoonup> SportMapping) \<Rightarrow> sport \<Rightarrow> string option" where
  "getSportTypeCode sportMappings sportName = map_option m_sportTypeCode (sportMappings sportName)"

text \<open>\<^verbatim>\<open>PreGameApiService.getSportCode\<close>: the code of the table, or the fixed one when
  the table has none (or an empty one).\<close>

definition getSportCode :: "(sport \<rightharpoonup> SportMapping) \<Rightarrow> sport \<Rightarrow> string" where
  "getSportCode sportMappings sp =
     (case strOrNull (getSportTypeCode sportMappings sp) of
        None \<Rightarrow> (case sp of Football \<Rightarrow> ''S'' | Tennis \<Rightarrow> ''T'' | Basketball \<Rightarrow> ''V'')
      | Some c \<Rightarrow> c)"





section \<open>Catalog Join / Enrichment Engine (DataService, SportMappingService)\<close>


subsection \<open>Scheduled matches\<close>

record PreGameBet =
  pb_bpc :: int
  pb_tt :: int
  pb_s :: string
  pb_ov :: real
  pb_bc :: int
  pb_sv :: string

record PreGameMatch =
  pm_id :: int
  pm_sport :: string
  betMap :: "(string \<times> (string \<times> PreGameBet) list) list"



















subsection \<open>Live matches\<close>














section \<open>Mode Orchestrator (DataService)\<close>

text \<open>
  In the running service the records of the store are decoded JSON objects. \<open>jsval\<close> is a
  JSON value; the sport filter compares the field \<^verbatim>\<open>s\<close> of a header with the sport
  type code, a string.
\<close>

datatype jsval = JNull | JBool bool | JNum int | JStr string | JArr "jsval list"
  | JObj "(string \<times> jsval) list"

record LiveSport =
  ls_sport :: string
  ls_sportSortValue :: string
  ls_matchsCount :: int

record PreGameResponse =
  esMatches :: "PreGameMatch list"

datatype mode = Live | PreGame

text \<open>
  \<^verbatim>\<open>InitializedData\<close>. Its \<^verbatim>\<open>liveData\<close> field is a reference to the object that the
  stream service holds as well, so the model keeps the object in the service and records
  here whether the reference is set. Its \<^verbatim>\<open>sportMapping\<close> field is the mapping service
  itself and is left out.
\<close>

record InitializedData =
  sports_i :: "SportData list"
  bettingOptions_i :: BettingOptionsResponse
  enhancedBettingOptions :: EnhancedBettingOptions
  initializedAt_i :: nat
  mode_i :: mode
  sport_i :: sport
  interval :: "string option"
  liveData_i :: bool
  preGameData :: "PreGameResponse option"

text \<open>The state of the \<^verbatim>\<open>DataService\<close> and of the services it owns: its own two
  fields, the two fields of the \<^verbatim>\<open>SportMappingService\<close>, and the stream service in
  its world of timers.\<close>

record dataService =
  initializedData :: "InitializedData option"
  isInitialized :: bool
  sportMappings :: "sport \<rightharpoonup> SportMapping"
  bettingOptions :: "BettingOptionsResponse option"
  loop :: "(LiveSport, jsval) world"


text \<open>\<^verbatim>\<open>SportMappingService.filterLiveHeadersBySport\<close> on the headers of the store.\<close>

definition filterLiveHeadersBySport ::
  "(sport \<rightharpoonup> SportMapping) \<Rightarrow> jsval live_record list \<Rightarrow> sport \<Rightarrow> jsval live_record list" where
  "filterLiveHeadersBySport sm hs sp =
     (case strOrNull (getSportTypeCode sm sp) of
        None \<Rightarrow> []
      | Some code \<Rightarrow> filter (\<lambda>header. header ''s'' = Some (JStr code)) hs)"

text \<open>
  What the outside world does during one call of \<^verbatim>\<open>initialize\<close>: the catalog fetch
  fails with a message or delivers the sports and the betting options; the bulk
  connection and the decoder of its frames; the connection of the subscription; the
  scheduled fetch; and the two readings of the clock.
\<close>

record initEnv =
  env_catalog :: "string + SportData list \<times> BettingOptionsResponse"
  env_bulk :: connection
  env_decode :: "string \<Rightarrow> (LiveSport, jsval) streamData option"
  env_subscription :: connect_outcome
  env_pregame :: "string + PreGameResponse"
  env_liveTime :: nat
  env_commitTime :: nat

datatype init_error =
    CatalogError string
  | LiveError ingest_error
  | SubscriptionError sub_error
  | PreGameError string

datatype 'a outcome = Returned 'a | Threw init_error | NeverSettles

definition commit ::
  "mode \<Rightarrow> sport \<Rightarrow> string option \<Rightarrow> initEnv \<Rightarrow> SportData list \<Rightarrow> BettingOptionsResponse \<Rightarrow>
   EnhancedBettingOptions \<Rightarrow> bool \<Rightarrow> PreGameResponse option \<Rightarrow> dataService \<Rightarrow>
   InitializedData outcome \<times> dataService" where
  "commit md sp ival env sps bo enhanced live pg ds =
     (let idata = \<lparr>sports_i = sps, bettingOptions_i = bo, enhancedBettingOptions = enhanced,
                    initializedAt_i = env_commitTime env, mode_i = md, sport_i = sp, interval = ival,
                    liveData_i = live, preGameData = pg\<rparr>
      in (Returned idata, ds\<lparr>initializedData := Some idata, isInitialized := True\<rparr>))"


text \<open>\<^verbatim>\<open>DataService.reset\<close>.\<close>

definition reset :: "dataService \<Rightarrow> dataService" where
  "reset ds =
     (let w = loop ds;
          w1 = (if isStreaming (service w) then w\<lparr>service := stopLiveSubscription (service w)\<rparr> else w)
      in ds\<lparr>loop := w1, initializedData := None, isInitialized := False\<rparr>)"

text \<open>The query surface.\<close>

definition getInitializedData :: "dataService \<Rightarrow> InitializedData option" where
  "getInitializedData ds = initializedData ds"


definition getLiveData :: "dataService \<Rightarrow> (LiveSport, jsval) LiveData option" where
  "getLiveData ds = liveData (service (loop ds))"



definition getCurrentSportTypeCode :: "dataService \<Rightarrow> string option" where
  "getCurrentSportTypeCode ds =
     (case getInitializedData ds of
        None \<Rightarrow> None
      | Some idata \<Rightarrow> getSportTypeCode (sportMappings ds) (sport_i idata))"

definition getFilteredLiveHeadersBySport :: "dataService \<Rightarrow> jsval live_record list" where
  "getFilteredLiveHeadersBySport ds =
     (case (getInitializedData ds, getLiveData ds) of
        (Some idata, Some d) \<Rightarrow> filterLiveHeadersBySport (sportMappings ds) (headers d) (sport_i idata)
      | _ \<Rightarrow> [])"

section \<open>Concrete inputs\<close>

text \<open>A store with one header (id 7, home team 40, status 1) and one bet (id 3), a patch
  that carries the id 7 and a new status only, and a patch that adds a record with id 9.\<close>

definition store7 :: "(unit, int) LiveData" where
  "store7 = \<lparr>sports = [], headers = [[''id'' \<mapsto> 7, ''h'' \<mapsto> 40, ''ls'' \<mapsto> 1]],
             bets = [[''id'' \<mapsto> 3, ''mId'' \<mapsto> 7]], lastTimestamp = Num 5, initializedAt = 0, sport = Football\<rparr>"


definition patch79 :: "int live_record list" where
  "patch79 = [[''id'' \<mapsto> 7, ''ls'' \<mapsto> 2], [''id'' \<mapsto> 9, ''h'' \<mapsto> 50]]"

text \<open>A bulk frame whose two headers carry the same id.\<close>

definition frameTwice7 :: "(unit, int) streamData" where
  "frameTwice7 = \<lparr>liveSports = None,
       liveHeaders = Some [[''id'' \<mapsto> 7, ''h'' \<mapsto> 40], [''id'' \<mapsto> 7, ''h'' \<mapsto> 41]],
       liveBets = None\<rparr>"

text \<open>A bulk stream of two chunks: a data frame, then the sentinel, whose closing blank line
  arrives with the second chunk. The decoder knows one payload.\<close>

definition decodeH :: "string \<Rightarrow> (unit, int) streamData option" where
  "decodeH s = (if s = ''H'' then Some frameTwice7 else None)"

definition chunks17 :: "string list" where
  "chunks17 = [''H'' @ [LF, LF] @ ''END 17'', [LF, LF]]"



text \<open>A service that has its watermark and is not subscribed yet.\<close>

definition idle17 :: "(unit, int) world" where
  "idle17 = \<lparr>service = newStreamService\<lparr>currentTimestamp := Some (Num 17)\<rparr>, timers = [], connects = 0\<rparr>"














section \<open>Properties of the Live State Store\<close>

subsection \<open>One record of a patch\<close>



lemma rid_override: "rid h = rid n \<Longrightarrow> rid (h ++ n) = rid n"
  by (simp add: rid_def map_add_def split: option.splits)

lemma mergeRecord_Nil: "mergeRecord [] n = [n]"
  by (simp add: mergeRecord_def)

lemma mergeRecord_Cons:
  "mergeRecord (h # rs) n = (if rid h = rid n then (h ++ n) # rs else h # mergeRecord rs n)"
  by (simp add: mergeRecord_def split: option.splits)

lemma mergeRecords_snoc: "mergeRecords rs (ns @ [n]) = mergeRecord (mergeRecords rs ns) n"
  by (simp add: mergeRecords_def)

lemma map_rid_mergeRecord:
  "map rid (mergeRecord rs n) =
     (if rid n \<in> rid ` set rs then map rid rs else map rid rs @ [rid n])"
  by (induction rs) (auto simp: mergeRecord_Nil mergeRecord_Cons rid_override)

lemma lookup_mergeRecord:
  "lookupRecord (mergeRecord rs n) k =
     (if k = rid n
      then Some ((case lookupRecord rs k of Some h \<Rightarrow> h | None \<Rightarrow> Map.empty) ++ n)
      else lookupRecord rs k)"
  by (induction rs) (auto simp: lookupRecord_def mergeRecord_Nil mergeRecord_Cons rid_override)

lemma patchFor_snoc:
  "patchFor (ns @ [n]) k = patchFor ns k ++ (if rid n = k then n else Map.empty)"
  by (simp add: patchFor_def)

lemma patchFor_absent: "k \<notin> rid ` set ns \<Longrightarrow> patchFor ns k = Map.empty"
proof -
  assume "k \<notin> rid ` set ns"
  then have "filter (\<lambda>n. rid n = k) ns = []" by (auto simp: filter_empty_conv)
  then show ?thesis by (simp add: patchFor_def)
qed

lemma set_rid_mergeRecords:
  "rid ` set (mergeRecords rs ns) = rid ` set rs \<union> rid ` set ns"
proof (induction ns rule: rev_induct)
  case Nil
  show ?case by (simp add: mergeRecords_def)
next
  case (snoc n ns)
  have "rid ` set (mergeRecord (mergeRecords rs ns) n) = set (map rid (mergeRecord (mergeRecords rs ns) n))"
    by simp
  also have "\<dots> = insert (rid n) (rid ` set (mergeRecords rs ns))"
    unfolding map_rid_mergeRecord by auto
  finally show ?case using snoc by (auto simp: mergeRecords_snoc)
qed

lemma lookup_mergeRecords:
  "lookupRecord (mergeRecords rs ns) k =
     (if k \<in> rid ` set ns
      then Some ((case lookupRecord rs k of Some h \<Rightarrow> h | None \<Rightarrow> Map.empty) ++ patchFor ns k)
      else lookupRecord rs k)"
proof (induction ns rule: rev_induct)
  case Nil
  show ?case by (simp add: mergeRecords_def)
next
  case (snoc n ns)
  show ?case
  proof (cases "k = rid n")
    case False
    then show ?thesis using snoc
      by (auto simp: mergeRecords_snoc lookup_mergeRecord patchFor_snoc)
  next
    case True
    show ?thesis
    proof (cases "k \<in> rid ` set ns")
      case True
      with \<open>k = rid n\<close> snoc show ?thesis
        by (simp add: mergeRecords_snoc lookup_mergeRecord patchFor_snoc)
    next
      case False
      with \<open>k = rid n\<close> snoc show ?thesis
        by (simp add: mergeRecords_snoc lookup_mergeRecord patchFor_snoc patchFor_absent)
    qed
  qed
qed

lemma overlayFirst_trivial:
  "\<forall>k. k \<notin> seen \<longrightarrow> A k = Map.empty \<Longrightarrow> overlayFirst seen A rs = rs"
  by (induction rs arbitrary: seen) auto

lemma override_twice: "(b ++ p) ++ p = b ++ p"
  by (rule ext) (simp add: map_add_def split: option.splits)

lemma mergeRecord_overlayFirst:
  "rid n \<in> rid ` set rs \<Longrightarrow> rid n \<notin> seen \<Longrightarrow>
   mergeRecord rs n = overlayFirst seen (\<lambda>k. if rid n = k then n else Map.empty) rs"
proof (induction rs arbitrary: seen)
  case Nil
  then show ?case by simp
next
  case (Cons h rs)
  show ?case
  proof (cases "rid h = rid n")
    case True
    have "overlayFirst (insert (rid h) seen) (\<lambda>k. if rid n = k then n else Map.empty) rs = rs"
      by (rule overlayFirst_trivial) (use True in auto)
    with True Cons.prems show ?thesis by (simp add: mergeRecord_Cons)
  next
    case False
    with Cons.prems have "rid n \<in> rid ` set rs" "rid n \<notin> insert (rid h) seen" by auto
    from Cons.IH[OF this] False show ?thesis by (simp add: mergeRecord_Cons)
  qed
qed

lemma map_rid_overlayFirst:
  "(\<And>h. rid (h ++ A (rid h)) = rid h) \<Longrightarrow> map rid (overlayFirst seen A rs) = map rid rs"
  by (induction rs arbitrary: seen) auto

lemma overlayFirst_compose:
  "(\<And>h. rid (h ++ A (rid h)) = rid h) \<Longrightarrow>
   overlayFirst seen B (overlayFirst seen A rs) = overlayFirst seen (\<lambda>k. A k ++ B k) rs"
  by (induction rs arbitrary: seen) auto

lemma patchFor_keeps_id: "rid (h ++ patchFor ns (rid h)) = rid h"
proof (induction ns rule: rev_induct)
  case Nil
  show ?case by (simp add: patchFor_def)
next
  case (snoc n ns)
  show ?case
  proof (cases "rid n = rid h")
    case True
    have "rid ((h ++ patchFor ns (rid h)) ++ n) = rid n"
      by (rule rid_override) (simp add: snoc True)
    with True show ?thesis by (simp add: patchFor_snoc)
  next
    case False
    with snoc show ?thesis by (simp add: patchFor_snoc)
  qed
qed

lemma mergeRecords_overlayFirst:
  "rid ` set ns \<subseteq> rid ` set rs \<Longrightarrow> mergeRecords rs ns = overlayFirst {} (patchFor ns) rs"
proof (induction ns rule: rev_induct)
  case Nil
  have "overlayFirst {} (patchFor []) rs = rs"
    by (rule overlayFirst_trivial) (simp add: patchFor_def)
  then show ?case by (simp add: mergeRecords_def)
next
  case (snoc n ns)
  let ?X = "overlayFirst {} (patchFor ns) rs"
  from snoc have eq: "mergeRecords rs ns = ?X" by simp
  have ids: "map rid ?X = map rid rs"
    by (rule map_rid_overlayFirst) (rule patchFor_keeps_id)
  from snoc.prems have "rid n \<in> rid ` set rs" by auto
  also have "rid ` set rs = rid ` set ?X" using ids by (metis set_map)
  finally have mem: "rid n \<in> rid ` set ?X" .
  have "mergeRecords rs (ns @ [n]) = mergeRecord ?X n"
    by (simp add: mergeRecords_snoc eq)
  also have "\<dots> = overlayFirst {} (\<lambda>k. if rid n = k then n else Map.empty) ?X"
    by (rule mergeRecord_overlayFirst[OF mem]) simp
  also have "\<dots> = overlayFirst {} (\<lambda>k. patchFor ns k ++ (if rid n = k then n else Map.empty)) rs"
    by (rule overlayFirst_compose) (rule patchFor_keeps_id)
  also have "(\<lambda>k. patchFor ns k ++ (if rid n = k then n else Map.empty)) = patchFor (ns @ [n])"
    by (rule ext) (simp add: patchFor_snoc)
  finally show ?case .
qed

lemma overlayFirst_fixed:
  "(\<And>k r. k \<notin> seen \<Longrightarrow> lookupRecord rs k = Some r \<Longrightarrow> r ++ A k = r) \<Longrightarrow>
   overlayFirst seen A rs = rs"
proof (induction rs arbitrary: seen)
  case Nil
  show ?case by simp
next
  case (Cons h rs)
  have tail: "overlayFirst (insert (rid h) seen) A rs = rs"
  proof (rule Cons.IH)
    fix k r assume "k \<notin> insert (rid h) seen" "lookupRecord rs k = Some r"
    then have "k \<notin> seen" "lookupRecord (h # rs) k = Some r"
      by (auto simp: lookupRecord_def)
    then show "r ++ A k = r" by (rule Cons.prems)
  qed
  have head: "rid h \<notin> seen \<Longrightarrow> h ++ A (rid h) = h"
    by (rule Cons.prems) (simp_all add: lookupRecord_def)
  show ?case using tail head by simp
qed

lemma mergeRecords_idem: "mergeRecords (mergeRecords rs ns) ns = mergeRecords rs ns"
proof -
  let ?S = "mergeRecords rs ns"
  have "rid ` set ns \<subseteq> rid ` set ?S" by (simp add: set_rid_mergeRecords)
  then have "mergeRecords ?S ns = overlayFirst {} (patchFor ns) ?S"
    by (rule mergeRecords_overlayFirst)
  also have "\<dots> = ?S"
  proof (rule overlayFirst_fixed)
    fix k r assume r: "lookupRecord ?S k = Some r"
    show "r ++ patchFor ns k = r"
    proof (cases "k \<in> rid ` set ns")
      case True
      with r obtain b where "r = b ++ patchFor ns k"
        by (auto simp: lookup_mergeRecords)
      then show ?thesis by (simp add: override_twice)
    next
      case False
      then show ?thesis by (simp add: patchFor_absent)
    qed
  qed
  finally show ?thesis .
qed


lemma length_mergeRecord: "length rs \<le> length (mergeRecord rs n)"
  by (induction rs) (auto simp: mergeRecord_Nil mergeRecord_Cons)

lemma mergeRecord_nth_other:
  "i < length rs \<Longrightarrow> rid (rs ! i) \<noteq> rid n \<Longrightarrow> mergeRecord rs n ! i = rs ! i"
  by (induction rs arbitrary: i) (auto simp: mergeRecord_Cons nth_Cons split: nat.splits)

lemma length_mergeRecords: "length rs \<le> length (mergeRecords rs ns)"
proof (induction ns rule: rev_induct)
  case Nil
  show ?case by (simp add: mergeRecords_def)
next
  case (snoc n ns)
  then show ?case
    using length_mergeRecord[of "mergeRecords rs ns" n] by (simp add: mergeRecords_snoc)
qed

lemma mergeRecords_nth_other:
  "i < length rs \<Longrightarrow> rid (rs ! i) \<notin> rid ` set ns \<Longrightarrow> mergeRecords rs ns ! i = rs ! i"
proof (induction ns rule: rev_induct)
  case Nil
  show ?case by (simp add: mergeRecords_def)
next
  case (snoc n ns)
  then have eq: "mergeRecords rs ns ! i = rs ! i" by simp
  have len: "i < length (mergeRecords rs ns)"
    using snoc.prems(1) length_mergeRecords[of rs ns] by simp
  have "rid (mergeRecords rs ns ! i) \<noteq> rid n" using eq snoc.prems(2) by simp
  from mergeRecord_nth_other[OF len this] eq show ?case by (simp add: mergeRecords_snoc)
qed

lemma map_rid_mergeRecord_addId: "map rid (mergeRecord rs n) = addId (map rid rs) (rid n)"
  by (simp add: map_rid_mergeRecord addId_def)

lemma map_rid_mergeRecords: "map rid (mergeRecords rs ns) = foldl addId (map rid rs) (map rid ns)"
  by (induction ns rule: rev_induct)
     (simp_all add: mergeRecords_def map_rid_mergeRecord_addId)

lemma foldl_addId:
  "\<exists>new. foldl addId ks ms = ks @ new \<and> distinct new \<and> set new = set ms - set ks"
proof (induction ms rule: rev_induct)
  case Nil
  show ?case by simp
next
  case (snoc m ms)
  then obtain new where new: "foldl addId ks ms = ks @ new" "distinct new" "set new = set ms - set ks"
    by blast
  show ?case
  proof (cases "m \<in> set ks \<union> set new")
    case True
    with new have "foldl addId ks (ms @ [m]) = ks @ new" by (simp add: addId_def)
    moreover from True new have "set new = set (ms @ [m]) - set ks" by auto
    ultimately show ?thesis using new(2) by blast
  next
    case False
    with new have "foldl addId ks (ms @ [m]) = ks @ (new @ [m])" by (simp add: addId_def)
    moreover from False new have "set (new @ [m]) = set (ms @ [m]) - set ks" by auto
    moreover from False new have "distinct (new @ [m])" by simp
    ultimately show ?thesis by blast
  qed
qed

lemma mergeRecords_ids:
  "\<exists>new. map rid (mergeRecords rs ns) = map rid rs @ new \<and> distinct new \<and>
         set new = rid ` set ns - rid ` set rs"
  using foldl_addId[of "map rid rs" "map rid ns"] by (simp add: map_rid_mergeRecords)

lemma mergeRecords_distinct:
  "distinct (map rid rs) \<Longrightarrow> distinct (map rid (mergeRecords rs ns))"
proof -
  assume d: "distinct (map rid rs)"
  obtain new where new: "map rid (mergeRecords rs ns) = map rid rs @ new" "distinct new"
    "set new = rid ` set ns - rid ` set rs"
    using mergeRecords_ids by blast
  then show ?thesis using d by auto
qed







subsection \<open>A whole patch\<close>

text \<open>
  Claim C9. Applying the same patch twice in succession leaves the store as one
  application does: for a header patch, for an odds patch, and for an update frame that
  carries both. It holds for every store, also one that is absent or that holds several
  records under one id.
\<close>

theorem patch_twice_same_as_once:
  "updateLiveHeaders (updateLiveHeaders ld ns) ns = updateLiveHeaders ld ns \<and>
   updateLiveBets (updateLiveBets ld ns) ns = updateLiveBets ld ns \<and>
   processLiveUpdateData (processLiveUpdateData ld data) data = processLiveUpdateData ld data"
proof -
  have h: "updateLiveHeaders (updateLiveHeaders x ms) ms = updateLiveHeaders x ms"
    for x :: "('a, 'b) LiveData option" and ms
    by (cases x) (simp_all add: updateLiveHeaders_def mergeRecords_idem)
  have b: "updateLiveBets (updateLiveBets x ms) ms = updateLiveBets x ms"
    for x :: "('a, 'b) LiveData option" and ms
    by (cases x) (simp_all add: updateLiveBets_def mergeRecords_idem)
  have "processLiveUpdateData (processLiveUpdateData ld data) data = processLiveUpdateData ld data"
    by (cases ld; cases "liveHeaders data"; cases "liveBets data")
       (simp_all add: processLiveUpdateData_def updateLiveHeaders_def updateLiveBets_def
          mergeRecords_idem)
  with h b show ?thesis by simp
qed


theorem patch_twice_same_as_once_witness:
  "updateLiveHeaders (updateLiveHeaders (Some store7) patch79) patch79
     = updateLiveHeaders (Some store7) patch79"
  using patch_twice_same_as_once[of "Some store7" patch79] by simp

text \<open>
  Claim C10. A patch never reorders records. The ids of the collection before the patch
  are a prefix of the ids after it, position by position; what is appended are the ids of
  the patch that were not in the collection, each once; and a record whose id does not
  occur in the patch is the same record at the same position afterwards. (That a record
  whose id does occur is rewritten at its own index is part of claim C1.)
\<close>

theorem patch_keeps_record_order:
  assumes "updateLiveHeaders (Some d) ns = Some d1"
    and "updateLiveBets (Some d) ns = Some d2"
  shows "(\<exists>new. map rid (headers d1) = map rid (headers d) @ new \<and> distinct new \<and>
            set new = rid ` set ns - rid ` set (headers d)) \<and>
         (\<forall>i<length (headers d). rid (headers d1 ! i) = rid (headers d ! i) \<and>
            (rid (headers d ! i) \<notin> rid ` set ns \<longrightarrow> headers d1 ! i = headers d ! i)) \<and>
         (\<exists>new. map rid (bets d2) = map rid (bets d) @ new \<and> distinct new \<and>
            set new = rid ` set ns - rid ` set (bets d)) \<and>
         (\<forall>i<length (bets d). rid (bets d2 ! i) = rid (bets d ! i) \<and>
            (rid (bets d ! i) \<notin> rid ` set ns \<longrightarrow> bets d2 ! i = bets d ! i))"
proof -
  have pos: "\<forall>i<length rs. rid (mergeRecords rs ns ! i) = rid (rs ! i) \<and>
            (rid (rs ! i) \<notin> rid ` set ns \<longrightarrow> mergeRecords rs ns ! i = rs ! i)"
    for rs :: "'b live_record list"
  proof (intro allI impI)
    fix i assume i: "i < length rs"
    obtain new where new: "map rid (mergeRecords rs ns) = map rid rs @ new"
      using mergeRecords_ids by blast
    have "i < length (mergeRecords rs ns)" using i length_mergeRecords[of rs ns] by simp
    then have "rid (mergeRecords rs ns ! i) = map rid (mergeRecords rs ns) ! i" by simp
    also have "\<dots> = rid (rs ! i)" using i by (simp add: new nth_append)
    finally show "rid (mergeRecords rs ns ! i) = rid (rs ! i) \<and>
            (rid (rs ! i) \<notin> rid ` set ns \<longrightarrow> mergeRecords rs ns ! i = rs ! i)"
      using mergeRecords_nth_other[OF i] by simp
  qed
  from assms(1) have h: "headers d1 = mergeRecords (headers d) ns"
    by (auto simp: updateLiveHeaders_def)
  from assms(2) have b: "bets d2 = mergeRecords (bets d) ns"
    by (auto simp: updateLiveBets_def)
  show ?thesis unfolding h b
    using mergeRecords_ids[of "headers d" ns] mergeRecords_ids[of "bets d" ns]
      pos[of "headers d"] pos[of "bets d"] by simp
qed


theorem patch_keeps_record_order_witness:
  "updateLiveHeaders (Some store7) patch79 \<noteq> None \<and>
   updateLiveBets (Some store7) patch79 \<noteq> None \<and>
   rid (headers (the (updateLiveHeaders (Some store7) patch79)) ! 0) = Some 7 \<and>
   bets (the (updateLiveBets (Some store7) patch79)) ! 0 = [''id'' \<mapsto> 3, ''mId'' \<mapsto> 7]"
proof -
  obtain d1 where h: "updateLiveHeaders (Some store7) patch79 = Some d1"
    by (simp add: updateLiveHeaders_def)
  obtain d2 where b: "updateLiveBets (Some store7) patch79 = Some d2"
    by (simp add: updateLiveBets_def)
  have len: "0 < length (headers store7)" "0 < length (bets store7)"
    by (simp_all add: store7_def)
  have out: "rid (bets store7 ! 0) \<notin> rid ` set patch79"
    by (simp add: store7_def patch79_def rid_def)
  from patch_keeps_record_order[OF h b] len out
  have "rid (headers d1 ! 0) = rid (headers store7 ! 0)" "bets d2 ! 0 = bets store7 ! 0"
    by blast+
  then show ?thesis using h b by (simp add: store7_def rid_def)
qed

text \<open>
  Claim C2, amended. Patches keep ids unique: when the headers and the bets hold at most
  one record per id, they still do after \<^verbatim>\<open>updateLiveHeaders\<close>, after
  \<^verbatim>\<open>updateLiveBets\<close> and after a whole update frame. The bulk ingestion appends the
  records of every frame as they come, so the snapshot has unique ids only if the frames
  of the provider do.
\<close>

theorem patch_keeps_ids_unique:
  assumes "distinct (map rid (headers d))" and "distinct (map rid (bets d))"
  shows "(\<exists>d1 d2 d3. updateLiveHeaders (Some d) hs = Some d1 \<and>
           distinct (map rid (headers d1)) \<and> bets d1 = bets d \<and>
           updateLiveBets (Some d) bs = Some d2 \<and>
           distinct (map rid (bets d2)) \<and> headers d2 = headers d \<and>
           processLiveUpdateData (Some d) data = Some d3 \<and>
           distinct (map rid (headers d3)) \<and> distinct (map rid (bets d3))) \<and>
         accHeaders (processLiveStreamData data a)
           = accHeaders a @ (case liveHeaders data of None \<Rightarrow> [] | Some xs \<Rightarrow> xs) \<and>
         accBets (processLiveStreamData data a)
           = accBets a @ (case liveBets data of None \<Rightarrow> [] | Some xs \<Rightarrow> xs)"
proof -
  have "\<exists>d3. processLiveUpdateData (Some d) data = Some d3 \<and>
           distinct (map rid (headers d3)) \<and> distinct (map rid (bets d3))"
    using assms
    by (cases "liveHeaders data"; cases "liveBets data")
       (simp_all add: processLiveUpdateData_def updateLiveHeaders_def updateLiveBets_def
          mergeRecords_distinct)
  moreover have "accHeaders (processLiveStreamData data a)
           = accHeaders a @ (case liveHeaders data of None \<Rightarrow> [] | Some xs \<Rightarrow> xs)"
    "accBets (processLiveStreamData data a)
           = accBets a @ (case liveBets data of None \<Rightarrow> [] | Some xs \<Rightarrow> xs)"
    by (simp_all add: processLiveStreamData_def Let_def split: option.splits)
  ultimately show ?thesis using assms
    by (simp add: updateLiveHeaders_def updateLiveBets_def mergeRecords_distinct)
qed

theorem patch_keeps_ids_unique_witness:
  "distinct (map rid (headers store7)) \<and> distinct (map rid (bets store7)) \<and>
   distinct (map rid (headers (the (updateLiveHeaders (Some store7) patch79)))) \<and>
   distinct (map rid (bets (the (updateLiveBets (Some store7) patch79))))"
proof -
  have d: "distinct (map rid (headers store7))" "distinct (map rid (bets store7))"
    by (simp_all add: store7_def)
  from patch_keeps_ids_unique[OF d, of patch79 patch79 frameTwice7 "\<lparr>accSports = [], accHeaders = [], accBets = []\<rparr>"]
  obtain d1 d2 where "updateLiveHeaders (Some store7) patch79 = Some d1"
    "distinct (map rid (headers d1))" "updateLiveBets (Some store7) patch79 = Some d2"
    "distinct (map rid (bets d2))"
    by blast
  with d show ?thesis by simp
qed

section \<open>Properties of the Stream Ingestion Engine\<close>




lemma dataBuffer_processLine: "dataBuffer (processLine decode st l) = dataBuffer st"
  by (simp add: processLine_def Let_def split: option.splits)

lemma dataBuffer_processLines: "dataBuffer (foldl (processLine decode) st ls) = dataBuffer st"
  by (induction ls arbitrary: st) (simp_all add: dataBuffer_processLine)




lemma acc_end_line:
  "isEndLine l \<Longrightarrow> acc (processLine decode st l) = acc st"
  by (auto simp: processLine_def isEndLine_def Let_def split: option.splits)














text \<open>Above \<open>2^53\<close> the result of \<^verbatim>\<open>parseInt\<close> is no longer the value of the digits:
  \<^verbatim>\<open>parseInt('9007199254740993')\<close> is the double 9007199254740992.\<close>

lemma parseInt_above_exact_range: "parseInt ''9007199254740993'' = Inexact"
  by (simp add: parseInt_def toNumber_def isSpace_def isDigit_def radixValue_def digitValue_def)






text \<open>The uniqueness claim as written fails on the bulk ingestion: a frame with two headers of id 7
  leaves both in the accumulated headers, and the snapshot that the fetch resolves with
  holds them both.\<close>

theorem bulk_ingestion_duplicate_ids_counterexample:
  "\<not> distinct (map rid (accHeaders (processLiveStreamData frameTwice7
      \<lparr>accSports = [], accHeaders = [], accBets = []\<rparr>))) \<and>
   initializeLiveEvents decodeH Football 0 (Opened chunks17 StreamEnd)
     = Resolved \<lparr>sports = [], headers = the (liveHeaders frameTwice7), bets = [],
         lastTimestamp = Num 17, initializedAt = 0, sport = Football\<rparr> \<and>
   \<not> distinct (map rid (the (liveHeaders frameTwice7)))"
proof -
  have "initializeLiveEvents decodeH Football 0 (Opened chunks17 StreamEnd)
     = Resolved \<lparr>sports = [], headers = the (liveHeaders frameTwice7), bets = [],
         lastTimestamp = Num 17, initializedAt = 0, sport = Football\<rparr>"
    by (simp add: initializeLiveEvents_def streamPromise_def chunks17_def onData_def split_def
      ingest0_def processLine_def trim_def isSpace_def parseInt_def isDigit_def radixValue_def
      digitValue_def toNumber_def onEnd_def Let_def decodeH_def processLiveStreamData_def
      frameTwice7_def)
  then show ?thesis
    by (simp add: processLiveStreamData_def rid_def frameTwice7_def)
qed

section \<open>Properties of the Subscription Loop\<close>


lemma subscribe_connects:
  "truthy (currentTimestamp (service w)) \<Longrightarrow>
   connects (snd (subscribeToLiveUpdates outcome w)) = Suc (connects w)"
  by (cases outcome) (simp_all add: subscribeToLiveUpdates_def Let_def)

lemma subscribe_shouldStream:
  "shouldStream (service (snd (subscribeToLiveUpdates outcome w))) = shouldStream (service w)"
  by (cases outcome) (simp_all add: subscribeToLiveUpdates_def Let_def)

lemma timerCallback_connects:
  "shouldStream (service w) \<Longrightarrow> truthy (currentTimestamp (service w)) \<Longrightarrow>
   connects (timerCallback t outcome w) = Suc (connects w)"
  by (cases t) (simp_all add: subscribe_connects)

lemma timerCallback_stopped:
  "\<not> shouldStream (service w) \<Longrightarrow> timerCallback t outcome w = w"
  by (cases t) simp_all

lemma timerCallback_shouldStream:
  "shouldStream (service (timerCallback t outcome w)) = shouldStream (service w)"
  by (cases t) (simp_all add: subscribe_shouldStream)

lemma step_stopped:
  "\<not> isStart e \<Longrightarrow> \<not> shouldStream (service w) \<Longrightarrow>
   \<not> shouldStream (service (step e w)) \<and> connects (step e w) = connects w"
  by (cases e)
     (simp_all add: stopLiveSubscription_def onSubscriptionEnd_def onSubscriptionError_def
        timerCallback_stopped)

lemma run_stopped:
  "\<forall>e\<in>set evs. \<not> isStart e \<Longrightarrow> \<not> shouldStream (service w) \<Longrightarrow>
   \<not> shouldStream (service (run evs w)) \<and> connects (run evs w) = connects w"
proof (induction evs arbitrary: w)
  case Nil
  then show ?case by (simp add: run_def)
next
  case (Cons e evs)
  from Cons.prems have e: "\<not> isStart e" and rest: "\<forall>e\<in>set evs. \<not> isStart e" by auto
  from step_stopped[OF e Cons.prems(2)]
  have s: "\<not> shouldStream (service (step e w))" "connects (step e w) = connects w" by auto
  from Cons.IH[OF rest s(1)] s(2) show ?case by (simp add: run_def)
qed

lemma startLive_shouldStream:
  "shouldStream (service w) \<Longrightarrow> shouldStream (service (snd (startLiveSubscription outcome w)))"
  by (simp add: startLiveSubscription_def subscribe_shouldStream)

lemma step_desired:
  "e \<noteq> Stop \<Longrightarrow> shouldStream (service w) \<Longrightarrow> shouldStream (service (step e w))"
  by (cases e)
     (simp_all add: onSubscriptionEnd_def onSubscriptionError_def timerCallback_shouldStream
        startLive_shouldStream)

lemma run_desired:
  "\<forall>e\<in>set evs. e \<noteq> Stop \<Longrightarrow> shouldStream (service w) \<Longrightarrow> shouldStream (service (run evs w))"
proof (induction evs arbitrary: w)
  case Nil
  then show ?case by (simp add: run_def)
next
  case (Cons e evs)
  from Cons.prems have "e \<noteq> Stop" "\<forall>e\<in>set evs. e \<noteq> Stop" by auto
  with Cons.IH[of "step e w"] step_desired[of e w] Cons.prems(2) show ?case
    by (simp add: run_def)
qed

text \<open>
  Claim C4, amended. When the update stream ends, the end handler schedules the short
  timer (1000 ms) and leaves \<^verbatim>\<open>shouldStream\<close> as it is; \<^verbatim>\<open>shouldStream\<close> stays set
  through every event other than a stop; and a timer that fires while
  \<^verbatim>\<open>shouldStream\<close> is set (the service has its timestamp) makes exactly one connection
  attempt. After \<^verbatim>\<open>stopLiveSubscription\<close>, as long as \<^verbatim>\<open>startLiveSubscription\<close> is not
  called again, no event makes a connection attempt, whichever timers fire: the stop
  clears \<^verbatim>\<open>shouldStream\<close>, both timer callbacks test it, and only a start sets it again.
\<close>

theorem reconnect_unless_stopped:
  "timers (step End w) = timers w @ [EndTimer] \<and> delay EndTimer = 1000 \<and>
   shouldStream (service (step End w)) = shouldStream (service w) \<and>
   ((\<forall>e\<in>set evs. e \<noteq> Stop) \<and> shouldStream (service w)
      \<longrightarrow> shouldStream (service (run evs w))) \<and>
   (i < length (timers w) \<and> shouldStream (service w) \<and> truthy (currentTimestamp (service w))
      \<longrightarrow> connects (step (Fire i outcome) w) = Suc (connects w)) \<and>
   ((\<forall>e\<in>set evs. \<not> isStart e)
      \<longrightarrow> connects (run evs (step Stop w)) = connects w \<and>
          \<not> shouldStream (service (run evs (step Stop w))))"
proof -
  have stop: "\<not> shouldStream (service (step Stop w))" "connects (step Stop w) = connects w"
    by (simp_all add: stopLiveSubscription_def)
  have "(\<forall>e\<in>set evs. \<not> isStart e)
      \<longrightarrow> connects (run evs (step Stop w)) = connects w \<and>
          \<not> shouldStream (service (run evs (step Stop w)))"
    using run_stopped[of evs "step Stop w"] stop by auto
  moreover have "i < length (timers w) \<and> shouldStream (service w) \<and> truthy (currentTimestamp (service w))
      \<longrightarrow> connects (step (Fire i outcome) w) = Suc (connects w)"
    by (simp add: timerCallback_connects)
  moreover have "(\<forall>e\<in>set evs. e \<noteq> Stop) \<and> shouldStream (service w)
      \<longrightarrow> shouldStream (service (run evs w))"
    using run_desired by blast
  ultimately show ?thesis by (simp add: onSubscriptionEnd_def)
qed

theorem reconnect_unless_stopped_witness:
  "shouldStream (service (run [Start ConnOpened] idle17)) \<and>
   timers (step End (run [Start ConnOpened] idle17)) = [EndTimer] \<and>
   connects (step (Fire 0 ConnOpened) (step End (run [Start ConnOpened] idle17))) = 2 \<and>
   connects (run [Fire 0 ConnOpened] (step Stop (step End (run [Start ConnOpened] idle17)))) = 1"
proof -
  let ?w = "run [Start ConnOpened] idle17"
  let ?w1 = "step End ?w"
  have w: "shouldStream (service ?w)" "truthy (currentTimestamp (service ?w))" "connects ?w = 1"
    "timers ?w = []"
    by (simp_all add: run_def idle17_def newStreamService_def startLiveSubscription_def
      subscribeToLiveUpdates_def Let_def)
  have w1: "timers ?w1 = [EndTimer]" "shouldStream (service ?w1)"
    "truthy (currentTimestamp (service ?w1))" "connects ?w1 = 1"
    using w by (simp_all add: onSubscriptionEnd_def)
  have "connects (step (Fire 0 ConnOpened) ?w1) = Suc (connects ?w1)"
    using reconnect_unless_stopped[of ?w1 "[]" 0 ConnOpened] w1 by simp
  moreover have "connects (run [Fire 0 ConnOpened] (step Stop ?w1)) = connects ?w1"
    using reconnect_unless_stopped[of ?w1 "[Fire 0 ConnOpened]" 0 ConnOpened] by simp
  ultimately show ?thesis using w w1 by simp
qed

text \<open>The claim as written fails when the subscription is started again while a timer of
  the earlier stream is pending: the stop came before the timer fired, and the timer
  still opens a connection, the third one here, after a graceful end as after an error.\<close>

theorem stale_timer_counterexample:
  "timers (run [Start ConnOpened, End, Stop, Start ConnOpened] idle17) = [EndTimer] \<and>
   connects (run [Start ConnOpened, End, Stop, Start ConnOpened] idle17) = 2 \<and>
   connects (run [Start ConnOpened, End, Stop, Start ConnOpened, Fire 0 ConnOpened] idle17) = 3 \<and>
   timers (run [Start ConnOpened, Error ''ECONNRESET'', Stop, Start ConnOpened] idle17) = [ErrorTimer] \<and>
   connects (run [Start ConnOpened, Error ''ECONNRESET'', Stop, Start ConnOpened] idle17) = 2 \<and>
   connects (run [Start ConnOpened, Error ''ECONNRESET'', Stop, Start ConnOpened, Fire 0 ConnOpened]
               idle17) = 3"
  by (simp add: run_def idle17_def newStreamService_def startLiveSubscription_def
      subscribeToLiveUpdates_def stopLiveSubscription_def onSubscriptionEnd_def
      onSubscriptionError_def Let_def)

section \<open>Properties of the Catalog Join / Enrichment Engine\<close>

subsection \<open>Scheduled matches\<close>































subsection \<open>Live matches\<close>











section \<open>Properties of the Mode Orchestrator\<close>











text \<open>\<^verbatim>\<open>reset\<close> looks at \<^verbatim>\<open>isStreaming\<close> only. While a backoff timer is pending the flag
  is off, so a reset in that window leaves \<^verbatim>\<open>shouldStream\<close> set and the timer pending.\<close>

lemma reset_during_backoff:
  "\<not> isStreaming (service (loop ds)) \<Longrightarrow> loop (reset ds) = loop ds"
  by (simp add: reset_def Let_def)





lemma commit_not_thrown: "fst (commit md sp ival env sps bo enhanced live pg ds) \<noteq> Threw e"
  by (simp add: commit_def Let_def)


lemma startLive_keeps:
  "timers (snd (startLiveSubscription outcome w)) = timers w"
  "liveData (service (snd (startLiveSubscription outcome w))) = liveData (service w)"
  "currentTimestamp (service (snd (startLiveSubscription outcome w))) = currentTimestamp (service w)"
  by (cases outcome; simp add: startLiveSubscription_def subscribeToLiveUpdates_def Let_def)+

lemma startLive_refused:
  "truthy (currentTimestamp (service w)) \<Longrightarrow> \<not> isStreaming (service w) \<Longrightarrow>
   fst (startLiveSubscription (ConnFailed msg) w) = Some (SubscribeFailed msg)"
  by (simp add: startLiveSubscription_def subscribeToLiveUpdates_def Let_def)










end
